theory Spec2Isabelle
  imports Complex_Main
begin

section \<open>Common ground: numbers, points and errors\<close>

text \<open>
  The Python sources compute with \<open>float\<close>.  The definitions of the first sections are
  the sources in exact arithmetic: a float is read as a real number and an operation as
  the exact one, without rounding and without infinities.  The sources in binary64
  arithmetic, with every operation rounded, follow in a section of their own, under the
  same names with the suffix \<open>_f64\<close>.  The one exception the arithmetic of these modules
  can raise, a division by zero, is a value of the result type.
\<close>

datatype py_error = ZeroDivisionError

type_synonym point3 = "real \<times> real \<times> real"
type_synonym point2 = "real \<times> real"

text \<open>Python's \<open>a / b\<close> on floats: it raises when \<open>b\<close> is zero.\<close>

definition py_truediv :: "real \<Rightarrow> real \<Rightarrow> py_error + real" where
  "py_truediv a b = (if b = 0 then Inl ZeroDivisionError else Inr (a / b))"

text \<open>
  Python's \<open>a % m\<close> on floats with a positive modulus, in exact arithmetic: the remainder
  has the sign of the modulus, so it is \<open>a - m * floor (a / m)\<close>, a number of \<open>[0, m)\<close>.
  The binary64 operation is \<open>py_fmod_f64\<close> below; its result can be \<open>m\<close> itself.
\<close>

definition py_fmod :: "real \<Rightarrow> real \<Rightarrow> real" where
  "py_fmod a m = a - m * of_int \<lfloor>a / m\<rfloor>"

text \<open>Euclidean distance in the plane and in space, the measure the properties speak of.\<close>

definition dist2 :: "point2 \<Rightarrow> point2 \<Rightarrow> real" where
  "dist2 p q = (case p of (a, b) \<Rightarrow> case q of (c, d) \<Rightarrow> sqrt ((a - c)\<^sup>2 + (b - d)\<^sup>2))"

definition dist3 :: "point3 \<Rightarrow> point3 \<Rightarrow> real" where
  "dist3 p q = (case p of (a, b, c) \<Rightarrow> case q of (d, e, f) \<Rightarrow>
     sqrt ((a - d)\<^sup>2 + (b - e)\<^sup>2 + (c - f)\<^sup>2))"


section \<open>perspective.py: the one-point perspective camera\<close>

record PerspectiveCamera =
  screen_width :: int
  screen_height :: int
  vp_x :: real
  vp_y :: real
  perspective_strength :: real

text \<open>
  \<open>PerspectiveCamera.__init__\<close>: an absent vanishing point coordinate defaults to the
  horizontal centre and to 75 percent of the height.
\<close>

definition init_PerspectiveCamera ::
  "int \<Rightarrow> int \<Rightarrow> real option \<Rightarrow> real option \<Rightarrow> real \<Rightarrow> PerspectiveCamera" where
  "init_PerspectiveCamera w h vanishing_point_x vanishing_point_y strength =
     \<lparr> screen_width = w,
       screen_height = h,
       vp_x = (case vanishing_point_x of Some v \<Rightarrow> v | None \<Rightarrow> of_int w / 2),
       vp_y = (case vanishing_point_y of Some v \<Rightarrow> v | None \<Rightarrow> of_int h * 0.75),
       perspective_strength = strength \<rparr>"

text \<open>\<open>PerspectiveCamera(w, h)\<close> with every keyword argument at its default.\<close>

definition Camera :: "int \<Rightarrow> int \<Rightarrow> PerspectiveCamera" where
  "Camera w h = init_PerspectiveCamera w h None None 300.0"

text \<open>
  \<open>project_3d_to_2d\<close>, in exact arithmetic.  The source divides without a guard, so a
  depth \<open>z\<close> with \<open>perspective_strength + z = 0\<close> raises \<open>ZeroDivisionError\<close>.
\<close>

definition project_3d_to_2d ::
  "PerspectiveCamera \<Rightarrow> real \<Rightarrow> real \<Rightarrow> real \<Rightarrow> py_error + point2" where
  "project_3d_to_2d cam x y z =
     (case py_truediv (perspective_strength cam) (perspective_strength cam + z) of
        Inl e \<Rightarrow> Inl e
      | Inr perspective_factor \<Rightarrow>
          (let screen_x = vp_x cam + (x - vp_x cam) * perspective_factor;
               screen_y = vp_y cam + (y - vp_y cam) * perspective_factor
           in Inr (screen_x, screen_y)))"

text \<open>
  \<open>project_points\<close>: the list comprehension projects the points from left to right and
  the first exception ends it.
\<close>

fun project_points :: "PerspectiveCamera \<Rightarrow> point3 list \<Rightarrow> py_error + point2 list" where
  "project_points cam [] = Inr []"
| "project_points cam ((x, y, z) # points_3d) =
     (case project_3d_to_2d cam x y z of
        Inl e \<Rightarrow> Inl e
      | Inr p \<Rightarrow>
          (case project_points cam points_3d of
             Inl e \<Rightarrow> Inl e
           | Inr ps \<Rightarrow> Inr (p # ps)))"

text \<open>The single-point projection applied to a point given as a triple.\<close>

definition project_point :: "PerspectiveCamera \<Rightarrow> point3 \<Rightarrow> py_error + point2" where
  "project_point cam p = (case p of (x, y, z) \<Rightarrow> project_3d_to_2d cam x y z)"


section \<open>wireframe\_cube.py: the wireframe cube\<close>

text \<open>
  The fields \<open>position\<close>, \<open>size\<close> and \<open>vertices_3d\<close> of the class carry the prefix
  \<open>cube_\<close> here: \<open>size\<close> is a constant of HOL, and the sphere of \<open>main.py\<close> has fields
  of the same names.
\<close>

record WireframeCube =
  cube_position :: point3
  cube_size :: real
  cube_vertices_3d :: "point3 list"

definition UNIT_CUBE_VERTICES :: "(int \<times> int \<times> int) list" where
  "UNIT_CUBE_VERTICES =
     [(-1, -1, -1),
      (1, -1, -1),
      (1, 1, -1),
      (-1, 1, -1),
      (-1, -1, 1),
      (1, -1, 1),
      (1, 1, 1),
      (-1, 1, 1)]"

definition EDGES :: "(nat \<times> nat) list" where
  "EDGES =
     [(0, 1), (1, 2), (2, 3), (3, 0),
      (4, 5), (5, 6), (6, 7), (7, 4),
      (0, 4), (1, 5), (2, 6), (3, 7)]"

text \<open>
  \<open>WireframeCube._calculate_world_vertices\<close>, reading \<open>self.position\<close> and \<open>self.size\<close>,
  in exact arithmetic.
\<close>

definition cube_calculate_world_vertices :: "WireframeCube \<Rightarrow> point3 list" where
  "cube_calculate_world_vertices c =
     (case cube_position c of (px, py, pz) \<Rightarrow>
        let half_size = cube_size c / 2
        in map (\<lambda>(vx, vy, vz).
                 (px + of_int vx * half_size, py + of_int vy * half_size, pz + of_int vz * half_size))
             UNIT_CUBE_VERTICES)"

text \<open>\<open>WireframeCube.__init__\<close>: the fields are set and the world vertices computed from them.\<close>

definition init_WireframeCube :: "point3 \<Rightarrow> real \<Rightarrow> WireframeCube" where
  "init_WireframeCube position_3d sz =
     (let c = \<lparr> cube_position = position_3d, cube_size = sz, cube_vertices_3d = [] \<rparr>
      in c \<lparr> cube_vertices_3d := cube_calculate_world_vertices c \<rparr>)"

text \<open>\<open>WireframeCube.update_position\<close>.\<close>

definition cube_update_position :: "WireframeCube \<Rightarrow> point3 \<Rightarrow> WireframeCube" where
  "cube_update_position c new_position =
     (let c' = c \<lparr> cube_position := new_position \<rparr>
      in c' \<lparr> cube_vertices_3d := cube_calculate_world_vertices c' \<rparr>)"

text \<open>
  The vocabulary of the cube's properties: the edges of a closed quadrilateral through
  four vertex indices, and the translation of a point by the difference of two centres.
\<close>

definition closed_quadrilateral :: "nat \<Rightarrow> nat \<Rightarrow> nat \<Rightarrow> nat \<Rightarrow> (nat \<times> nat) list" where
  "closed_quadrilateral a b c d = [(a, b), (b, c), (c, d), (d, a)]"

definition translate_by_delta :: "point3 \<Rightarrow> point3 \<Rightarrow> point3 \<Rightarrow> point3" where
  "translate_by_delta old new v =
     (case old of (ox, oy, oz) \<Rightarrow> case new of (nx, ny, nz) \<Rightarrow> case v of (x, y, z) \<Rightarrow>
        (x + (nx - ox), y + (ny - oy), z + (nz - oz)))"


section \<open>main.py: the low-poly sphere\<close>

text \<open>
  The fields \<open>position\<close>, \<open>size\<close> and \<open>vertices_3d\<close> of \<open>LowPolySphere\<close> carry the prefix
  \<open>sphere_\<close>.  The methods read and assign the fields of \<open>self\<close>; here they take the
  record and return the updated one.
\<close>

record LowPolySphere =
  sphere_position :: point3
  sphere_size :: real
  rotation_angle :: real
  rotation_speed :: real
  base_vertices :: "point3 list"
  sphere_vertices_3d :: "point3 list"
  edges :: "(nat \<times> nat) list"

text \<open>
  The loop of \<open>_generate_icosahedron\<close> that divides every vertex by its length and appends
  the quotient to \<open>normalized\<close>.  The argument of \<open>math.sqrt\<close> is a sum of squares, so the
  square root itself never fails; the divisions raise for a vertex of length zero.
\<close>

fun normalize_loop :: "point3 list \<Rightarrow> point3 list \<Rightarrow> py_error + point3 list" where
  "normalize_loop [] normalized = Inr normalized"
| "normalize_loop ((x, y, z) # vertices) normalized =
     (let length_v = sqrt (x * x + y * y + z * z)
      in if length_v = 0 then Inl ZeroDivisionError
         else normalize_loop vertices (normalized @ [(x / length_v, y / length_v, z / length_v)]))"

text \<open>The vertex table of \<open>_generate_icosahedron\<close> for a given \<open>phi\<close>, before normalisation.\<close>

definition icosahedron_vertices :: "real \<Rightarrow> point3 list" where
  "icosahedron_vertices phi =
     [(-1, phi, 0),
      (1, phi, 0),
      (-1, -phi, 0),
      (1, -phi, 0),
      (0, -1, phi),
      (0, 1, phi),
      (0, -1, -phi),
      (0, 1, -phi),
      (phi, 0, -1),
      (phi, 0, 1),
      (-phi, 0, -1),
      (-phi, 0, 1)]"

definition generate_icosahedron :: "py_error + point3 list" where
  "generate_icosahedron =
     (let phi = (1 + sqrt 5) / 2
      in normalize_loop (icosahedron_vertices phi) [])"

definition generate_edges :: "(nat \<times> nat) list" where
  "generate_edges =
     [(0, 11), (0, 5), (0, 1), (0, 7), (0, 10),
      (1, 5), (5, 9), (11, 5), (11, 4), (11, 10),
      (2, 3), (2, 4), (2, 6), (2, 10), (2, 11),
      (1, 7), (1, 9), (3, 9), (3, 4), (3, 6),
      (4, 9), (6, 7), (6, 8), (6, 10), (7, 8),
      (7, 10), (8, 9), (8, 3), (9, 5), (4, 5)]"

text \<open>\<open>math.radians\<close>.\<close>

definition radians :: "real \<Rightarrow> real" where
  "radians angle_deg = angle_deg * pi / 180"

definition rotate_y :: "point3 \<Rightarrow> real \<Rightarrow> point3" where
  "rotate_y point angle_deg =
     (case point of (x, y, z) \<Rightarrow>
        let angle_rad = radians angle_deg;
            cos_a = cos angle_rad;
            sin_a = sin angle_rad;
            new_x = x * cos_a + z * sin_a;
            new_z = - x * sin_a + z * cos_a
        in (new_x, y, new_z))"

definition sphere_calculate_world_vertices :: "LowPolySphere \<Rightarrow> point3 list" where
  "sphere_calculate_world_vertices s =
     (case sphere_position s of (px, py, pz) \<Rightarrow>
        map (\<lambda>(vx, vy, vz).
               case rotate_y (vx, vy, vz) (rotation_angle s) of (rx, ry, rz) \<Rightarrow>
                 (px + rx * sphere_size s, py + ry * sphere_size s, pz + rz * sphere_size s))
          (base_vertices s))"

text \<open>
  \<open>LowPolySphere.__init__\<close>.  It fails only if the normalisation of the base vertices
  does.
\<close>

definition init_LowPolySphere :: "point3 \<Rightarrow> real \<Rightarrow> py_error + LowPolySphere" where
  "init_LowPolySphere position_3d sz =
     (case generate_icosahedron of
        Inl e \<Rightarrow> Inl e
      | Inr base \<Rightarrow>
          (let s = \<lparr> sphere_position = position_3d, sphere_size = sz, rotation_angle = 0.0,
                     rotation_speed = 10.0, base_vertices = base, sphere_vertices_3d = [],
                     edges = [] \<rparr>;
               s = s \<lparr> sphere_vertices_3d := sphere_calculate_world_vertices s \<rparr>
           in Inr (s \<lparr> edges := generate_edges \<rparr>)))"

text \<open>\<open>LowPolySphere.update\<close> and \<open>LowPolySphere.update_position\<close>.\<close>

definition update :: "LowPolySphere \<Rightarrow> real \<Rightarrow> LowPolySphere" where
  "update s dt =
     (let s = s \<lparr> rotation_angle := py_fmod (rotation_angle s + rotation_speed s * dt) 360 \<rparr>
      in s \<lparr> sphere_vertices_3d := sphere_calculate_world_vertices s \<rparr>)"

definition sphere_update_position :: "LowPolySphere \<Rightarrow> point3 \<Rightarrow> LowPolySphere" where
  "sphere_update_position s new_position =
     (let s = s \<lparr> sphere_position := new_position \<rparr>
      in s \<lparr> sphere_vertices_3d := sphere_calculate_world_vertices s \<rparr>)"

text \<open>A call of one of the two mutators, and a sequence of such calls run in order.\<close>

datatype sphere_call = Update real | UpdatePosition point3

fun sphere_apply :: "LowPolySphere \<Rightarrow> sphere_call \<Rightarrow> LowPolySphere" where
  "sphere_apply s (Update dt) = update s dt"
| "sphere_apply s (UpdatePosition new_position) = sphere_update_position s new_position"

text \<open>The number of edge ends at a vertex, and an edge with its smaller index first.\<close>

definition degree :: "(nat \<times> nat) list \<Rightarrow> nat \<Rightarrow> nat" where
  "degree es v = length (filter (\<lambda>(a, b). a = v) es) + length (filter (\<lambda>(a, b). b = v) es)"

definition undirected :: "nat \<times> nat \<Rightarrow> nat \<times> nat" where
  "undirected e = (case e of (a, b) \<Rightarrow> (min a b, max a b))"

text \<open>A vector divided by its length, and the length of a vector.\<close>

definition unit_vector :: "point3 \<Rightarrow> point3" where
  "unit_vector v = (case v of (x, y, z) \<Rightarrow>
     (x / sqrt (x * x + y * y + z * z), y / sqrt (x * x + y * y + z * z),
      z / sqrt (x * x + y * y + z * z)))"

definition norm3 :: "point3 \<Rightarrow> real" where
  "norm3 v = dist3 v (0, 0, 0)"

text \<open>
  What the constructor establishes and the two mutators keep: the constants of the solid,
  and the world vertices being those computed from the current fields.
\<close>

definition sphere_consistent :: "real \<Rightarrow> LowPolySphere \<Rightarrow> bool" where
  "sphere_consistent r s \<longleftrightarrow>
     sphere_size s = r \<and> rotation_speed s = 10 \<and> edges s = generate_edges
     \<and> base_vertices s = map unit_vector (icosahedron_vertices ((1 + sqrt 5) / 2))
     \<and> sphere_vertices_3d s = sphere_calculate_world_vertices s"


section \<open>color\_system.py: the colour evolution\<close>

text \<open>
  The class reads the wall clock with \<open>time.time()\<close>; here the time of a call is its
  argument \<open>now\<close>, so that two calls at the same time are two calls with the same \<open>now\<close>.
  \<open>colorsys.hsv_to_rgb\<close> belongs to the standard library, not to the repository: the colour
  methods take it as a parameter.
\<close>

record ColorEvolution =
  cycle_duration :: real
  start_time :: real

definition init_ColorEvolution :: "real \<Rightarrow> real \<Rightarrow> ColorEvolution" where
  "init_ColorEvolution duration now = \<lparr> cycle_duration = duration, start_time = now \<rparr>"

definition get_master_hue :: "ColorEvolution \<Rightarrow> real \<Rightarrow> py_error + real" where
  "get_master_hue cs now =
     (let elapsed = now - start_time cs
      in case py_truediv elapsed (cycle_duration cs) of
           Inl e \<Rightarrow> Inl e
         | Inr q \<Rightarrow> Inr (py_fmod q 1.0))"

text \<open>Python's \<open>int\<close> of a float truncates toward zero.\<close>

definition py_int :: "real \<Rightarrow> int" where
  "py_int x = (if 0 \<le> x then \<lfloor>x\<rfloor> else \<lceil>x\<rceil>)"

definition rgb_255 :: "real \<times> real \<times> real \<Rightarrow> int \<times> int \<times> int" where
  "rgb_255 c = (case c of (r, g, b) \<Rightarrow> (py_int (r * 255), py_int (g * 255), py_int (b * 255)))"

text \<open>The local variable \<open>hue\<close> of \<open>get_snake_color\<close> and of \<open>get_apple_color\<close>.\<close>

definition snake_hue :: "ColorEvolution \<Rightarrow> real \<Rightarrow> py_error + real" where
  "snake_hue cs now = get_master_hue cs now"

definition apple_hue :: "ColorEvolution \<Rightarrow> real \<Rightarrow> py_error + real" where
  "apple_hue cs now =
     (case get_master_hue cs now of
        Inl e \<Rightarrow> Inl e
      | Inr h \<Rightarrow> Inr (py_fmod (h + 0.333) 1.0))"

definition get_snake_color ::
  "(real \<Rightarrow> real \<Rightarrow> real \<Rightarrow> real \<times> real \<times> real) \<Rightarrow> ColorEvolution \<Rightarrow> real
   \<Rightarrow> py_error + int \<times> int \<times> int" where
  "get_snake_color hsv_to_rgb cs now =
     (case snake_hue cs now of
        Inl e \<Rightarrow> Inl e
      | Inr hue \<Rightarrow>
          (let saturation = 0.8; val = 0.9
           in Inr (rgb_255 (hsv_to_rgb hue saturation val))))"

definition get_apple_color ::
  "(real \<Rightarrow> real \<Rightarrow> real \<Rightarrow> real \<times> real \<times> real) \<Rightarrow> ColorEvolution \<Rightarrow> real
   \<Rightarrow> py_error + int \<times> int \<times> int" where
  "get_apple_color hsv_to_rgb cs now =
     (case apple_hue cs now of
        Inl e \<Rightarrow> Inl e
      | Inr hue \<Rightarrow>
          (let saturation = 0.9; val = 0.95
           in Inr (rgb_255 (hsv_to_rgb hue saturation val))))"


section \<open>The sources in binary64 arithmetic\<close>

text \<open>
  The definitions above read every \<open>float\<close> as a real number and every operation as the
  exact one.  Python's \<open>float\<close> is IEEE binary64: a finite value is a real with a 53 bit
  significand, and \<open>+\<close>, \<open>-\<close>, \<open>*\<close> and \<open>/\<close> return the exact result rounded to the nearest
  such value, a tie going to the even significand.  \<open>f64\<close> is that rounding, with the
  gradual underflow below \<open>2 ^ -1022\<close>; magnitudes of \<open>2 ^ 1024\<close> and above, where binary64
  has its infinities, are outside it, and so are they in everything evaluated below.
\<close>

definition round_ties_even :: "real \<Rightarrow> int" where
  "round_ties_even y =
     (let n = \<lfloor>y\<rfloor>; d = y - of_int n
      in if d < 1 / 2 then n else if 1 / 2 < d then n + 1 else if even n then n else n + 1)"

definition f64 :: "real \<Rightarrow> real" where
  "f64 x =
     (if x = 0 then 0
      else let e = max \<lfloor>log 2 \<bar>x\<bar>\<rfloor> (- 1022);
               ulp = 2 powi (e - 52)
           in of_int (round_ties_even (x / ulp)) * ulp)"

definition py_truediv_f64 :: "real \<Rightarrow> real \<Rightarrow> py_error + real" where
  "py_truediv_f64 a b = (if b = 0 then Inl ZeroDivisionError else Inr (f64 (a / b)))"

text \<open>\<open>project_3d_to_2d\<close> with every operation of the source rounded.\<close>

definition project_3d_to_2d_f64 ::
  "PerspectiveCamera \<Rightarrow> real \<Rightarrow> real \<Rightarrow> real \<Rightarrow> py_error + point2" where
  "project_3d_to_2d_f64 cam x y z =
     (case py_truediv_f64 (perspective_strength cam) (f64 (perspective_strength cam + z)) of
        Inl e \<Rightarrow> Inl e
      | Inr perspective_factor \<Rightarrow>
          (let screen_x = f64 (vp_x cam + f64 (f64 (x - vp_x cam) * perspective_factor));
               screen_y = f64 (vp_y cam + f64 (f64 (y - vp_y cam) * perspective_factor))
           in Inr (screen_x, screen_y)))"

text \<open>The cube's \<open>_calculate_world_vertices\<close>, \<open>__init__\<close> and \<open>update_position\<close>, rounded.\<close>

definition cube_calculate_world_vertices_f64 :: "WireframeCube \<Rightarrow> point3 list" where
  "cube_calculate_world_vertices_f64 c =
     (case cube_position c of (px, py, pz) \<Rightarrow>
        let half_size = f64 (cube_size c / 2)
        in map (\<lambda>(vx, vy, vz).
                 (f64 (px + f64 (of_int vx * half_size)),
                  f64 (py + f64 (of_int vy * half_size)),
                  f64 (pz + f64 (of_int vz * half_size))))
             UNIT_CUBE_VERTICES)"

definition init_WireframeCube_f64 :: "point3 \<Rightarrow> real \<Rightarrow> WireframeCube" where
  "init_WireframeCube_f64 position_3d sz =
     (let c = \<lparr> cube_position = position_3d, cube_size = sz, cube_vertices_3d = [] \<rparr>
      in c \<lparr> cube_vertices_3d := cube_calculate_world_vertices_f64 c \<rparr>)"

definition cube_update_position_f64 :: "WireframeCube \<Rightarrow> point3 \<Rightarrow> WireframeCube" where
  "cube_update_position_f64 c new_position =
     (let c' = c \<lparr> cube_position := new_position \<rparr>
      in c' \<lparr> cube_vertices_3d := cube_calculate_world_vertices_f64 c' \<rparr>)"

text \<open>
  Python's \<open>a % m\<close> on floats: the C library's \<open>fmod\<close>, which is exact and has the sign of
  \<open>a\<close>, and then, for a remainder whose sign is not that of \<open>m\<close>, the rounded sum with \<open>m\<close>.
\<close>

definition py_fmod_f64 :: "real \<Rightarrow> real \<Rightarrow> py_error + real" where
  "py_fmod_f64 a m =
     (if m = 0 then Inl ZeroDivisionError
      else let r = a - m * of_int (py_int (a / m))
           in if r \<noteq> 0 \<and> (m < 0) \<noteq> (r < 0) then Inr (f64 (r + m)) else Inr r)"

section \<open>Properties of the binary64 rounding\<close>

lemma binade_eq:
  assumes "2 powi e \<le> \<bar>x\<bar>" and "\<bar>x\<bar> < 2 powi (e + 1)"
  shows "\<lfloor>log 2 \<bar>x\<bar>\<rfloor> = e"
proof -
  have pos: "0 < \<bar>x\<bar>" using assms(1) by (smt (verit) zero_less_power_int)
  have "2 powr (of_int e) \<le> \<bar>x\<bar>" using assms(1) by (simp add: powr_real_of_int')
  then have lo: "of_int e \<le> log 2 \<bar>x\<bar>" using pos by (simp add: le_log_iff)
  have "(2::real) powr (of_int (e + 1)) = 2 powi (e + 1)"
    by (rule powr_real_of_int') simp_all
  then have "\<bar>x\<bar> < 2 powr (of_int (e + 1))" using assms(2) by simp
  then have hi: "log 2 \<bar>x\<bar> < of_int (e + 1)" using pos by (subst log_less_iff) simp_all
  from lo hi show ?thesis by linarith
qed

text \<open>
  How a value is rounded: in the binade \<open>[2 ^ e, 2 ^ (e + 1))\<close> the spacing is
  \<open>2 ^ (e - 52)\<close>, and the result is the nearest multiple of it.
\<close>

lemma f64_eval:
  assumes "2 powi e \<le> \<bar>x\<bar>" and "\<bar>x\<bar> < 2 powi (e + 1)" and "- 1022 \<le> e"
    and "round_ties_even (x / 2 powi (e - 52)) = n"
  shows "f64 x = of_int n * 2 powi (e - 52)"
proof -
  have "x \<noteq> 0" using assms(1) by (smt (verit) zero_less_power_int abs_zero)
  moreover have "max \<lfloor>log 2 \<bar>x\<bar>\<rfloor> (- 1022) = e"
    using binade_eq [OF assms(1,2)] assms(3) by simp
  ultimately show ?thesis by (simp add: f64_def assms(4) Let_def)
qed

lemma f64_zero: "f64 0 = 0"
  by (simp add: f64_def)

text \<open>Values that binary64 holds exactly.\<close>

lemma f64_exact:
  "f64 (300) = 300"
  "f64 (1) = 1"
  "f64 (- 400) = - 400"
  "f64 (- 150) = - 150"
  "f64 (600) = 600"
  "f64 (1 / 2) = 1 / 2"
  "f64 (- 75) = - 75"
  "f64 (375) = 375"
  "f64 (400) = 400"
  "f64 (450) = 450"
  "f64 (- 450) = - 450"
  "f64 (- 1) = - 1"
  "f64 (9007199254740991) = 9007199254740991"
  "f64 (9007199254740992) = 9007199254740992"
proof -
  show "f64 (300) = 300"
    using f64_eval [of "8" "300" "5277655813324800"]
    by (simp add: power_int_minus round_ties_even_def)
next
  show "f64 (1) = 1"
    using f64_eval [of "0" "1" "4503599627370496"]
    by (simp add: power_int_minus round_ties_even_def)
next
  show "f64 (- 400) = - 400"
    using f64_eval [of "8" "- 400" "-7036874417766400"]
    by (simp add: power_int_minus round_ties_even_def)
next
  show "f64 (- 150) = - 150"
    using f64_eval [of "7" "- 150" "-5277655813324800"]
    by (simp add: power_int_minus round_ties_even_def)
next
  show "f64 (600) = 600"
    using f64_eval [of "9" "600" "5277655813324800"]
    by (simp add: power_int_minus round_ties_even_def)
next
  show "f64 (1 / 2) = 1 / 2"
    using f64_eval [of "-1" "1 / 2" "4503599627370496"]
    by (simp add: power_int_minus round_ties_even_def)
next
  show "f64 (- 75) = - 75"
    using f64_eval [of "6" "- 75" "-5277655813324800"]
    by (simp add: power_int_minus round_ties_even_def)
next
  show "f64 (375) = 375"
    using f64_eval [of "8" "375" "6597069766656000"]
    by (simp add: power_int_minus round_ties_even_def)
next
  show "f64 (450) = 450"
    using f64_eval [of "8" "450" "7916483719987200"]
    by (simp add: power_int_minus round_ties_even_def)
next
  show "f64 (400) = 400"
    using f64_eval [of "8" "400" "7036874417766400"]
    by (simp add: power_int_minus round_ties_even_def)
next
  show "f64 (- 450) = - 450"
    using f64_eval [of "8" "- 450" "-7916483719987200"]
    by (simp add: power_int_minus round_ties_even_def)
next
  show "f64 (- 1) = - 1"
    using f64_eval [of "0" "- 1" "-4503599627370496"]
    by (simp add: power_int_minus round_ties_even_def)
next
  show "f64 (9007199254740991) = 9007199254740991"
    using f64_eval [of "52" "9007199254740991" "9007199254740991"]
    by (simp add: power_int_minus round_ties_even_def)
next
  show "f64 (9007199254740992) = 9007199254740992"
    using f64_eval [of "53" "9007199254740992" "4503599627370496"]
    by (simp add: power_int_minus round_ties_even_def)
qed

lemma project_3d_to_2d_f64_steps:
  assumes "f64 (perspective_strength cam + z) = d" and "d \<noteq> 0"
    and "f64 (perspective_strength cam / d) = f"
    and "f64 (x - vp_x cam) = dx" and "f64 (dx * f) = mx" and "f64 (vp_x cam + mx) = sx"
    and "f64 (y - vp_y cam) = dy" and "f64 (dy * f) = my" and "f64 (vp_y cam + my) = sy"
  shows "project_3d_to_2d_f64 cam x y z = Inr (sx, sy)"
  using assms by (simp add: project_3d_to_2d_f64_def py_truediv_f64_def)

lemma Camera_800_600:
  "vp_x (Camera 800 600) = 400" "vp_y (Camera 800 600) = 450"
  "perspective_strength (Camera 800 600) = 300"
  by (simp_all add: Camera_def init_PerspectiveCamera_def)




lemma f64_same_point:
  "project_3d_to_2d_f64 (Camera 800 600) 0 0 0 = Inr (0, 0)"
  "project_3d_to_2d_f64 (Camera 800 600) 0 0 (1 / 2 ^ 50) = Inr (0, 0)"
proof -
  show "project_3d_to_2d_f64 (Camera 800 600) 0 0 0 = Inr (0, 0)"
    by (rule project_3d_to_2d_f64_steps [where d = 300 and f = 1 and dx = "- 400"
          and mx = "- 400" and dy = "- 450" and my = "- 450"])
      (simp_all add: Camera_800_600 f64_exact f64_zero)
  show "project_3d_to_2d_f64 (Camera 800 600) 0 0 (1 / 2 ^ 50) = Inr (0, 0)"
  proof (rule project_3d_to_2d_f64_steps [where d = 300 and f = 1 and dx = "- 400"
          and mx = "- 400" and dy = "- 450" and my = "- 450"])
    show "f64 (perspective_strength (Camera 800 600) + 1 / 2 ^ 50) = 300"
      unfolding Camera_800_600
      using f64_eval [of "8" "300 + 1 / 2 ^ 50" "5277655813324800"]
    by (simp add: power_int_minus round_ties_even_def)
  qed (simp_all add: Camera_800_600 f64_exact f64_zero)
qed

lemma f64_cube_far:
  "cube_vertices_3d (init_WireframeCube_f64 (9007199254740992, 0, 0) 2) =
     [(9007199254740991, - 1, - 1), (9007199254740992, - 1, - 1),
      (9007199254740992, 1, - 1), (9007199254740991, 1, - 1),
      (9007199254740991, - 1, 1), (9007199254740992, - 1, 1),
      (9007199254740992, 1, 1), (9007199254740991, 1, 1)]"
  "cube_vertices_3d
     (cube_update_position_f64 (init_WireframeCube_f64 (9007199254740992, 0, 0) 2) (0, 0, 0)) =
     [(- 1, - 1, - 1), (1, - 1, - 1), (1, 1, - 1), (- 1, 1, - 1),
      (- 1, - 1, 1), (1, - 1, 1), (1, 1, 1), (- 1, 1, 1)]"
proof -
  have up: "f64 9007199254740993 = 9007199254740992"
    using f64_eval [of "53" "9007199254740993" "4503599627370496"]
    by (simp add: power_int_minus round_ties_even_def)
  show "cube_vertices_3d (init_WireframeCube_f64 (9007199254740992, 0, 0) 2) =
     [(9007199254740991, - 1, - 1), (9007199254740992, - 1, - 1),
      (9007199254740992, 1, - 1), (9007199254740991, 1, - 1),
      (9007199254740991, - 1, 1), (9007199254740992, - 1, 1),
      (9007199254740992, 1, 1), (9007199254740991, 1, 1)]"
    by (simp add: init_WireframeCube_f64_def cube_calculate_world_vertices_f64_def
        UNIT_CUBE_VERTICES_def Let_def f64_exact f64_zero up)
  show "cube_vertices_3d
     (cube_update_position_f64 (init_WireframeCube_f64 (9007199254740992, 0, 0) 2) (0, 0, 0)) =
     [(- 1, - 1, - 1), (1, - 1, - 1), (1, 1, - 1), (- 1, 1, - 1),
      (- 1, - 1, 1), (1, - 1, 1), (1, 1, 1), (- 1, 1, 1)]"
    by (simp add: init_WireframeCube_f64_def cube_update_position_f64_def
        cube_calculate_world_vertices_f64_def UNIT_CUBE_VERTICES_def Let_def f64_exact f64_zero)
qed

lemma cube_f64_reachable_length:
  "length (cube_vertices_3d (foldl cube_update_position_f64 (init_WireframeCube_f64 p s) qs)) = 8"
proof -
  have len: "length (cube_calculate_world_vertices_f64 d) = 8" for d
    by (cases "cube_position d")
      (simp add: cube_calculate_world_vertices_f64_def UNIT_CUBE_VERTICES_def Let_def)
  show ?thesis
    by (cases qs rule: rev_cases)
      (simp_all add: init_WireframeCube_f64_def cube_update_position_f64_def Let_def len)
qed

lemma py_fmod_f64_reaches_modulus:
  "py_fmod_f64 (- (10 / 2 ^ 70)) 360 = Inr 360"
proof -
  have c: "\<lceil>- (10 / 2 ^ 70) / (360::real)\<rceil> = 0"
    by (simp add: ceiling_eq_iff)
  have "f64 (- (10 / 2 ^ 70) + 360) = 360"
    using f64_eval [of "8" "- (10 / 2 ^ 70) + 360" "6333186975989760"]
    by (simp add: power_int_minus round_ties_even_def)
  then show ?thesis
    using c by (simp add: py_fmod_f64_def py_int_def Let_def)
qed


section \<open>Properties of the projection\<close>

lemma project_3d_to_2d_ok:
  "perspective_strength cam + z \<noteq> 0 \<Longrightarrow>
   project_3d_to_2d cam x y z =
     Inr (vp_x cam + (x - vp_x cam) * (perspective_strength cam / (perspective_strength cam + z)),
          vp_y cam + (y - vp_y cam) * (perspective_strength cam / (perspective_strength cam + z)))"
  by (simp add: project_3d_to_2d_def py_truediv_def)

lemma project_3d_to_2d_raises:
  "perspective_strength cam + z = 0 \<Longrightarrow> project_3d_to_2d cam x y z = Inl ZeroDivisionError"
  by (simp add: project_3d_to_2d_def py_truediv_def)




text \<open>
  Claim C9.  The vanishing point is a fixed point of the projection at every depth: for
  every camera and every \<open>z\<close> with \<open>perspective_strength + z \<noteq> 0\<close>, projecting
  \<open>(vp_x, vp_y, z)\<close> gives \<open>(vp_x, vp_y)\<close>.
\<close>

theorem vanishing_point_fixed:
  assumes "perspective_strength cam + z \<noteq> 0"
  shows "project_3d_to_2d cam (vp_x cam) (vp_y cam) z = Inr (vp_x cam, vp_y cam)"
  using assms by (simp add: project_3d_to_2d_def py_truediv_def)

theorem vanishing_point_fixed_witness:
  "perspective_strength (Camera 800 600) + 120 \<noteq> 0
   \<and> project_3d_to_2d (Camera 800 600) 400 450 120 = Inr (400, 450)"
  using vanishing_point_fixed [of "Camera 800 600" 120]
  by (simp add: Camera_def init_PerspectiveCamera_def)

text \<open>
  Claim C4.  \<open>project_3d_to_2d\<close> is a pure function of the camera and the point (the
  source assigns to no attribute and to no global, and the model returns nothing but the
  point) that returns a point whenever the caller keeps \<open>perspective_strength + z > 0\<close>;
  whenever it does fail, the caller has made \<open>perspective_strength + z \<le> 0\<close>, and the
  failure is the division by zero.
\<close>

theorem project_3d_to_2d_total:
  "(0 < perspective_strength cam + z \<longrightarrow> (\<exists>p. project_3d_to_2d cam x y z = Inr p))
   \<and> (\<forall>e. project_3d_to_2d cam x y z = Inl e \<longrightarrow>
          perspective_strength cam + z \<le> 0 \<and> e = ZeroDivisionError)"
  by (auto simp add: project_3d_to_2d_def py_truediv_def split: if_splits)

theorem project_3d_to_2d_total_witness:
  "0 < perspective_strength (Camera 800 600) + 300
   \<and> project_3d_to_2d (Camera 800 600) 400 300 300 = Inr (400, 375)
   \<and> project_3d_to_2d (Camera 800 600) 1 2 (-300) = Inl ZeroDivisionError
   \<and> perspective_strength (Camera 800 600) + (-300) \<le> 0"
  using project_3d_to_2d_total [of "Camera 800 600" 300 400 300]
    project_3d_to_2d_total [of "Camera 800 600" "-300" 1 2]
  by (simp add: project_3d_to_2d_def py_truediv_def Camera_def init_PerspectiveCamera_def)

lemma project_points_list_all2:
  "project_points cam ps = Inr qs \<longleftrightarrow> list_all2 (\<lambda>p q. project_point cam p = Inr q) ps qs"
proof (induction ps arbitrary: qs)
  case Nil
  show ?case by auto
next
  case (Cons p ps)
  obtain x y z where p: "p = (x, y, z)" by (cases p) auto
  show ?case
  proof (cases qs)
    case Nil
    then show ?thesis by (simp add: p split: sum.splits)
  next
    case (Cons q qs')
    then show ?thesis using Cons.IH [of qs']
      by (auto simp add: p project_point_def split: sum.splits)
  qed
qed

lemma project_points_returns:
  "(\<forall>p \<in> set ps. perspective_strength cam + snd (snd p) \<noteq> 0) \<Longrightarrow>
   \<exists>qs. project_points cam ps = Inr qs"
proof (induction ps)
  case Nil
  show ?case by simp
next
  case (Cons p ps)
  obtain x y z where p: "p = (x, y, z)" by (cases p) auto
  from Cons obtain qs where "project_points cam ps = Inr qs" by auto
  moreover from Cons.prems have "perspective_strength cam + z \<noteq> 0" by (simp add: p)
  ultimately show ?case by (simp add: p project_3d_to_2d_ok)
qed

lemma project_points_raises:
  "project_points cam ps = Inl e \<Longrightarrow> \<exists>i<length ps. project_point cam (ps ! i) = Inl e"
proof (induction ps)
  case Nil
  then show ?case by simp
next
  case (Cons p ps)
  obtain x y z where p: "p = (x, y, z)" by (cases p) auto
  show ?case
  proof (cases "project_3d_to_2d cam x y z")
    case (Inl e')
    with Cons.prems have "project_point cam ((p # ps) ! 0) = Inl e"
      by (simp add: p project_point_def)
    then show ?thesis by blast
  next
    case (Inr q)
    with Cons.prems have "project_points cam ps = Inl e"
      by (simp add: p split: sum.splits)
    from Cons.IH [OF this] obtain i where "i < length ps" "project_point cam (ps ! i) = Inl e"
      by blast
    then have "Suc i < length (p # ps)" "project_point cam ((p # ps) ! Suc i) = Inl e"
      by simp_all
    then show ?thesis by blast
  qed
qed

text \<open>
  Claim C7.  For every camera and every sequence of \<open>N\<close> points, \<open>project_points\<close>
  returns the sequence of \<open>N\<close> projected points in the same order: what it returns has
  the length of the input and its \<open>i\<close>-th element is what \<open>project_3d_to_2d\<close> returns
  at the \<open>i\<close>-th input point, and conversely such a sequence is what it returns.  It does
  return whenever no point has the depth \<open>- perspective_strength\<close>, and it raises only an
  exception that the single-point projection raises at one of the points.
\<close>

theorem project_points_elementwise:
  "(project_points cam ps = Inr qs \<longleftrightarrow>
      length qs = length ps \<and> (\<forall>i<length ps. project_point cam (ps ! i) = Inr (qs ! i)))
   \<and> ((\<forall>p \<in> set ps. perspective_strength cam + snd (snd p) \<noteq> 0) \<longrightarrow>
        (\<exists>rs. project_points cam ps = Inr rs \<and> length rs = length ps))
   \<and> (\<forall>e. project_points cam ps = Inl e \<longrightarrow>
          (\<exists>i<length ps. project_point cam (ps ! i) = Inl e))"
proof -
  have "project_points cam ps = Inr qs \<longleftrightarrow>
      length qs = length ps \<and> (\<forall>i<length ps. project_point cam (ps ! i) = Inr (qs ! i))"
    by (auto simp add: project_points_list_all2 list_all2_conv_all_nth)
  moreover have "(\<forall>p \<in> set ps. perspective_strength cam + snd (snd p) \<noteq> 0) \<longrightarrow>
        (\<exists>rs. project_points cam ps = Inr rs \<and> length rs = length ps)"
  proof
    assume "\<forall>p \<in> set ps. perspective_strength cam + snd (snd p) \<noteq> 0"
    then obtain rs where rs: "project_points cam ps = Inr rs"
      using project_points_returns by blast
    then have "length rs = length ps"
      by (simp add: project_points_list_all2 list_all2_lengthD)
    with rs show "\<exists>rs. project_points cam ps = Inr rs \<and> length rs = length ps" by blast
  qed
  moreover have "\<forall>e. project_points cam ps = Inl e \<longrightarrow>
          (\<exists>i<length ps. project_point cam (ps ! i) = Inl e)"
    using project_points_raises by blast
  ultimately show ?thesis by blast
qed

theorem project_points_elementwise_witness:
  "project_points (Camera 800 600) [(400, 300, 0), (400, 300, 300)] = Inr [(400, 300), (400, 375)]
   \<and> project_point (Camera 800 600) (400, 300, 0) = Inr (400, 300)
   \<and> project_point (Camera 800 600) (400, 300, 300) = Inr (400, 375)"
  using project_points_elementwise [of "Camera 800 600" "[(400, 300, 0), (400, 300, 300)]"
      "[(400, 300), (400, 375)]"]
  by (simp add: project_point_def project_3d_to_2d_def py_truediv_def Camera_def
      init_PerspectiveCamera_def)

subsection \<open>Convergence toward the vanishing point\<close>

lemma dist2_scaled:
  "dist2 (a + dx * f, b + dy * f) (a, b) = \<bar>f\<bar> * sqrt (dx\<^sup>2 + dy\<^sup>2)"
proof -
  have "(dx * f)\<^sup>2 + (dy * f)\<^sup>2 = f\<^sup>2 * (dx\<^sup>2 + dy\<^sup>2)"
    by (simp add: power_mult_distrib algebra_simps)
  then show ?thesis
    by (simp add: dist2_def real_sqrt_mult)
qed

lemma dist2_projection:
  assumes "perspective_strength cam + z \<noteq> 0"
  shows "\<exists>p. project_3d_to_2d cam x y z = Inr p \<and>
    dist2 p (vp_x cam, vp_y cam) =
      \<bar>perspective_strength cam / (perspective_strength cam + z)\<bar> *
        dist2 (x, y) (vp_x cam, vp_y cam)"
proof -
  define f where "f = perspective_strength cam / (perspective_strength cam + z)"
  have "project_3d_to_2d cam x y z =
      Inr (vp_x cam + (x - vp_x cam) * f, vp_y cam + (y - vp_y cam) * f)"
    unfolding f_def by (rule project_3d_to_2d_ok [OF assms])
  moreover have "dist2 (vp_x cam + (x - vp_x cam) * f, vp_y cam + (y - vp_y cam) * f)
      (vp_x cam, vp_y cam) = \<bar>f\<bar> * sqrt ((x - vp_x cam)\<^sup>2 + (y - vp_y cam)\<^sup>2)"
    by (rule dist2_scaled)
  moreover have "dist2 (x, y) (vp_x cam, vp_y cam) = sqrt ((x - vp_x cam)\<^sup>2 + (y - vp_y cam)\<^sup>2)"
    by (simp add: dist2_def)
  ultimately show ?thesis unfolding f_def by simp
qed

text \<open>
  Claim C3 (as amended).  In exact real arithmetic, for every point \<open>(x, y)\<close> other than the
  vanishing point, every positive \<open>perspective_strength\<close> and every pair of depths
  \<open>z1 < z2\<close> with \<open>perspective_strength + z1 > 0\<close>, both projections return and the point
  projected at depth \<open>z2\<close> is strictly closer, in Euclidean distance, to \<open>(vp_x, vp_y)\<close>
  than the point projected at depth \<open>z1\<close>.
\<close>

theorem projection_converges:
  assumes "0 < perspective_strength cam"
    and "0 < perspective_strength cam + z1"
    and "z1 < z2"
    and "(x, y) \<noteq> (vp_x cam, vp_y cam)"
  shows "\<exists>p1 p2. project_3d_to_2d cam x y z1 = Inr p1 \<and> project_3d_to_2d cam x y z2 = Inr p2
    \<and> dist2 p2 (vp_x cam, vp_y cam) < dist2 p1 (vp_x cam, vp_y cam)"
proof -
  let ?s = "perspective_strength cam"
  let ?vp = "(vp_x cam, vp_y cam)"
  from assms have nz: "?s + z1 \<noteq> 0" "?s + z2 \<noteq> 0" by auto
  from dist2_projection [OF nz(1), of x y] obtain p1 where
    p1: "project_3d_to_2d cam x y z1 = Inr p1"
      "dist2 p1 ?vp = \<bar>?s / (?s + z1)\<bar> * dist2 (x, y) ?vp" by blast
  from dist2_projection [OF nz(2), of x y] obtain p2 where
    p2: "project_3d_to_2d cam x y z2 = Inr p2"
      "dist2 p2 ?vp = \<bar>?s / (?s + z2)\<bar> * dist2 (x, y) ?vp" by blast
  from assms(4) have "x - vp_x cam \<noteq> 0 \<or> y - vp_y cam \<noteq> 0" by auto
  then have "0 < (x - vp_x cam)\<^sup>2 + (y - vp_y cam)\<^sup>2"
    by (metis add_pos_nonneg add_nonneg_pos zero_le_power2 zero_less_power2)
  then have pos: "0 < dist2 (x, y) ?vp" by (simp add: dist2_def)
  from assms have "?s / (?s + z2) < ?s / (?s + z1)"
    by (simp add: frac_less2)
  moreover from assms have "0 < ?s / (?s + z2)" by simp
  ultimately have "\<bar>?s / (?s + z2)\<bar> < \<bar>?s / (?s + z1)\<bar>" by linarith
  with pos have "\<bar>?s / (?s + z2)\<bar> * dist2 (x, y) ?vp < \<bar>?s / (?s + z1)\<bar> * dist2 (x, y) ?vp"
    by (rule mult_strict_right_mono [rotated])
  then have "dist2 p2 ?vp < dist2 p1 ?vp" by (simp only: p1 p2)
  with p1 p2 show ?thesis by blast
qed

theorem projection_converges_witness:
  "0 < perspective_strength (Camera 800 600)
   \<and> 0 < perspective_strength (Camera 800 600) + 0
   \<and> (0::real) < 300
   \<and> (400, 300) \<noteq> (vp_x (Camera 800 600), vp_y (Camera 800 600))
   \<and> project_3d_to_2d (Camera 800 600) 400 300 0 = Inr (400, 300)
   \<and> project_3d_to_2d (Camera 800 600) 400 300 300 = Inr (400, 375)
   \<and> dist2 (400, 375) (vp_x (Camera 800 600), vp_y (Camera 800 600))
       < dist2 (400, 300) (vp_x (Camera 800 600), vp_y (Camera 800 600))"
  using projection_converges [of "Camera 800 600" 0 300 400 300]
  by (simp add: project_3d_to_2d_def py_truediv_def Camera_def init_PerspectiveCamera_def)

text \<open>
  Without the restrictions the convergence fails.  A point at the vanishing point stays
  there at every depth, at distance \<open>0\<close>, so it never gets strictly closer; and behind
  the camera plane (\<open>perspective_strength + z < 0\<close>) a larger depth moves the projected
  point away: with strength \<open>300\<close> the point \<open>(400, 150)\<close> is projected at distance
  \<open>150\<close> from the vanishing point at depth \<open>-900\<close> and at distance \<open>300\<close> at depth
  \<open>-600\<close>.  In binary64 two depths closer to each other than the floats around
  \<open>perspective_strength\<close> are spaced give the same denominator and the same point: with
  strength \<open>300\<close> the point \<open>(0, 0)\<close> is projected to \<open>(0, 0)\<close> at depth \<open>0\<close> and at depth
  \<open>2 ^ -50\<close>.
\<close>

theorem projection_converges_counterexample:
  "project_3d_to_2d (Camera 800 600) 400 450 0 = Inr (400, 450)
   \<and> project_3d_to_2d (Camera 800 600) 400 450 300 = Inr (400, 450)
   \<and> \<not> dist2 (400, 450) (vp_x (Camera 800 600), vp_y (Camera 800 600))
         < dist2 (400, 450) (vp_x (Camera 800 600), vp_y (Camera 800 600))
   \<and> project_3d_to_2d (Camera 800 600) 400 150 (-900) = Inr (400, 600)
   \<and> project_3d_to_2d (Camera 800 600) 400 150 (-600) = Inr (400, 750)
   \<and> \<not> dist2 (400, 750) (vp_x (Camera 800 600), vp_y (Camera 800 600))
         < dist2 (400, 600) (vp_x (Camera 800 600), vp_y (Camera 800 600))
   \<and> project_3d_to_2d_f64 (Camera 800 600) 0 0 0 = Inr (0, 0)
   \<and> project_3d_to_2d_f64 (Camera 800 600) 0 0 (1 / 2 ^ 50) = Inr (0, 0)
   \<and> (0 :: real) < 1 / 2 ^ 50
   \<and> (0 :: real, 0 :: real) \<noteq> (vp_x (Camera 800 600), vp_y (Camera 800 600))
   \<and> \<not> dist2 (0, 0) (vp_x (Camera 800 600), vp_y (Camera 800 600))
         < dist2 (0, 0) (vp_x (Camera 800 600), vp_y (Camera 800 600))"
proof -
  have exact: "project_3d_to_2d (Camera 800 600) 400 450 0 = Inr (400, 450)
   \<and> project_3d_to_2d (Camera 800 600) 400 450 300 = Inr (400, 450)
   \<and> \<not> dist2 (400, 450) (vp_x (Camera 800 600), vp_y (Camera 800 600))
         < dist2 (400, 450) (vp_x (Camera 800 600), vp_y (Camera 800 600))
   \<and> project_3d_to_2d (Camera 800 600) 400 150 (-900) = Inr (400, 600)
   \<and> project_3d_to_2d (Camera 800 600) 400 150 (-600) = Inr (400, 750)
   \<and> \<not> dist2 (400, 750) (vp_x (Camera 800 600), vp_y (Camera 800 600))
         < dist2 (400, 600) (vp_x (Camera 800 600), vp_y (Camera 800 600))"
    by (simp add: project_3d_to_2d_def py_truediv_def Camera_def init_PerspectiveCamera_def
        dist2_def)
  have apart: "(0 :: real, 0 :: real) \<noteq> (vp_x (Camera 800 600), vp_y (Camera 800 600))"
    by (simp add: Camera_800_600)
  from exact f64_same_point apart show ?thesis by simp
qed


section \<open>Properties of the cube\<close>

lemma cube_update_position_fields:
  "cube_position (cube_update_position c q) = q"
  "cube_size (cube_update_position c q) = cube_size c"
  "cube_vertices_3d (cube_update_position c q) =
     cube_calculate_world_vertices (cube_update_position c q)"
  by (simp_all add: cube_update_position_def cube_calculate_world_vertices_def Let_def)

lemma init_WireframeCube_fields:
  "cube_position (init_WireframeCube p s) = p"
  "cube_size (init_WireframeCube p s) = s"
  "cube_vertices_3d (init_WireframeCube p s) =
     cube_calculate_world_vertices (init_WireframeCube p s)"
  by (simp_all add: init_WireframeCube_def cube_calculate_world_vertices_def Let_def)

lemma cube_reachable_invariant:
  "cube_size (foldl cube_update_position (init_WireframeCube p s) qs) = s \<and>
   cube_vertices_3d (foldl cube_update_position (init_WireframeCube p s) qs) =
     cube_calculate_world_vertices (foldl cube_update_position (init_WireframeCube p s) qs)"
  by (induction qs rule: rev_induct)
    (simp_all add: init_WireframeCube_fields cube_update_position_fields)

lemma cube_calculate_translate:
  "cube_calculate_world_vertices (cube_update_position c q) =
     map (translate_by_delta (cube_position c) q) (cube_calculate_world_vertices c)"
  by (cases "cube_position c"; cases q)
    (simp add: cube_calculate_world_vertices_def cube_update_position_def Let_def
      translate_by_delta_def UNIT_CUBE_VERTICES_def)

lemma UNIT_CUBE_VERTICES_signs:
  "set UNIT_CUBE_VERTICES = {-1, 1} \<times> {-1, 1} \<times> {-1, 1}"
  "distinct UNIT_CUBE_VERTICES"
  "length UNIT_CUBE_VERTICES = 8"
  by (auto simp add: UNIT_CUBE_VERTICES_def)

lemma EDGES_faces:
  "length EDGES = 12"
  "EDGES = closed_quadrilateral 0 1 2 3 @ closed_quadrilateral 4 5 6 7
           @ map (\<lambda>i. (i, i + 4)) [0, 1, 2, 3]"
  "map (\<lambda>i. snd (snd (UNIT_CUBE_VERTICES ! i))) [0, 1, 2, 3] = [-1, -1, -1, -1]"
  "map (\<lambda>i. snd (snd (UNIT_CUBE_VERTICES ! i))) [4, 5, 6, 7] = [1, 1, 1, 1]"
  "map (\<lambda>i. UNIT_CUBE_VERTICES ! (i + 4)) [0, 1, 2, 3] =
     map (\<lambda>i. case UNIT_CUBE_VERTICES ! i of (x, y, z) \<Rightarrow> (x, y, z + 2)) [0, 1, 2, 3]"
  by (simp_all add: EDGES_def closed_quadrilateral_def UNIT_CUBE_VERTICES_def)

lemma cube_reachable_position:
  "cube_position (foldl cube_update_position (init_WireframeCube p s) qs) = last (p # qs)"
  by (cases qs rule: rev_cases)
    (simp_all add: init_WireframeCube_fields cube_update_position_fields)

text \<open>
  Claim C5 (as amended).  A cube, as constructed and after any sequence of
  \<open>update_position\<close> calls, has exactly 8 world vertices, in exact arithmetic and in
  binary64, and its centre is the position last given.  The local vertices are all the
  sign combinations \<open>(\<plusminus>1, \<plusminus>1, \<plusminus>1)\<close>, each once, and the edge table has exactly 12 edges:
  a closed quadrilateral through the four vertices at \<open>z = -1\<close>, one through the four at
  \<open>z = +1\<close>, and four connectors, each joining a corner of the first face to the corner of
  the second with the same \<open>x\<close> and \<open>y\<close>.  In exact real arithmetic the world vertices are
  the points \<open>center + local * (size / 2)\<close>, and \<open>update_position\<close> moves the centre to the
  new position and translates every one of the 8 world vertices by the difference of the
  new and the old centre.
\<close>

theorem cube_geometry:
  "(let c = foldl cube_update_position (init_WireframeCube p s) qs in
     length (cube_vertices_3d c) = 8
     \<and> length (cube_vertices_3d
                 (foldl cube_update_position_f64 (init_WireframeCube_f64 p s) qs)) = 8
     \<and> cube_position c = last (p # qs)
     \<and> cube_vertices_3d c =
         map (\<lambda>(vx, vy, vz). case cube_position c of (px, py, pz) \<Rightarrow>
               (px + of_int vx * (s / 2), py + of_int vy * (s / 2), pz + of_int vz * (s / 2)))
           UNIT_CUBE_VERTICES
     \<and> set UNIT_CUBE_VERTICES = {-1, 1} \<times> {-1, 1} \<times> {-1, 1}
     \<and> distinct UNIT_CUBE_VERTICES
     \<and> length EDGES = 12
     \<and> EDGES = closed_quadrilateral 0 1 2 3 @ closed_quadrilateral 4 5 6 7
               @ map (\<lambda>i. (i, i + 4)) [0, 1, 2, 3]
     \<and> map (\<lambda>i. snd (snd (UNIT_CUBE_VERTICES ! i))) [0, 1, 2, 3] = [-1, -1, -1, -1]
     \<and> map (\<lambda>i. snd (snd (UNIT_CUBE_VERTICES ! i))) [4, 5, 6, 7] = [1, 1, 1, 1]
     \<and> map (\<lambda>i. UNIT_CUBE_VERTICES ! (i + 4)) [0, 1, 2, 3] =
         map (\<lambda>i. case UNIT_CUBE_VERTICES ! i of (x, y, z) \<Rightarrow> (x, y, z + 2)) [0, 1, 2, 3]
     \<and> cube_position (cube_update_position c q) = q
     \<and> length (cube_vertices_3d (cube_update_position c q)) = 8
     \<and> cube_vertices_3d (cube_update_position c q) =
         map (translate_by_delta (cube_position c) q) (cube_vertices_3d c))"
proof -
  define c where "c = foldl cube_update_position (init_WireframeCube p s) qs"
  have inv: "cube_size c = s" "cube_vertices_3d c = cube_calculate_world_vertices c"
    unfolding c_def using cube_reachable_invariant [of p s qs] by simp_all
  have len: "length (cube_calculate_world_vertices d) = 8" for d
    by (cases "cube_position d")
      (simp add: cube_calculate_world_vertices_def UNIT_CUBE_VERTICES_signs(3))
  have n: "length (cube_vertices_3d c) = 8"
    by (simp add: inv(2) len)
  have n64: "length (cube_vertices_3d
                 (foldl cube_update_position_f64 (init_WireframeCube_f64 p s) qs)) = 8"
    by (rule cube_f64_reachable_length)
  have centre: "cube_position c = last (p # qs)"
    unfolding c_def by (rule cube_reachable_position)
  have world: "cube_vertices_3d c =
         map (\<lambda>(vx, vy, vz). case cube_position c of (px, py, pz) \<Rightarrow>
               (px + of_int vx * (s / 2), py + of_int vy * (s / 2), pz + of_int vz * (s / 2)))
           UNIT_CUBE_VERTICES"
    by (cases "cube_position c")
      (simp add: inv cube_calculate_world_vertices_def)
  have moved: "cube_position (cube_update_position c q) = q"
    by (rule cube_update_position_fields(1))
  have n': "length (cube_vertices_3d (cube_update_position c q)) = 8"
    by (simp add: cube_update_position_fields(3) len)
  have shift: "cube_vertices_3d (cube_update_position c q) =
         map (translate_by_delta (cube_position c) q) (cube_vertices_3d c)"
    by (simp only: cube_update_position_fields(3) cube_calculate_translate inv(2))
  show ?thesis
    unfolding Let_def c_def [symmetric]
    using n n64 centre world UNIT_CUBE_VERTICES_signs(1,2) EDGES_faces moved n' shift
    by blast
qed

theorem cube_geometry_witness:
  "cube_vertices_3d (init_WireframeCube (400, 300, 0) 20) =
     [(390, 290, -10), (410, 290, -10), (410, 310, -10), (390, 310, -10),
      (390, 290, 10), (410, 290, 10), (410, 310, 10), (390, 310, 10)]
   \<and> cube_vertices_3d (cube_update_position (init_WireframeCube (400, 300, 0) 20) (500, 400, 50)) =
     [(490, 390, 40), (510, 390, 40), (510, 410, 40), (490, 410, 40),
      (490, 390, 60), (510, 390, 60), (510, 410, 60), (490, 410, 60)]"
  using cube_geometry [of "(400, 300, 0)" 20 "[]" "(500, 400, 50)"]
  by (simp add: init_WireframeCube_def cube_calculate_world_vertices_def UNIT_CUBE_VERTICES_def
      translate_by_delta_def Let_def)


text \<open>
  In binary64 the world vertices are not exactly \<open>center + local * (size / 2)\<close> and do not
  move by exactly the difference of the centres.  A cube of size \<open>2\<close> centred at
  \<open>x = 2 ^ 53 = 9007199254740992\<close> has its vertices at \<open>x = 2 ^ 53 - 1\<close> and at
  \<open>x = 2 ^ 53\<close>, the odd number \<open>2 ^ 53 + 1\<close> not being a float; moved to the origin, it has
  them at \<open>x = -1\<close> and \<open>x = 1\<close>, so that the vertices at \<open>2 ^ 53\<close> have moved by
  \<open>1 - 2 ^ 53\<close> where the centre has moved by \<open>- 2 ^ 53\<close>.
\<close>

theorem cube_geometry_counterexample:
  "cube_vertices_3d (init_WireframeCube_f64 (9007199254740992, 0, 0) 2) =
     [(9007199254740991, - 1, - 1), (9007199254740992, - 1, - 1),
      (9007199254740992, 1, - 1), (9007199254740991, 1, - 1),
      (9007199254740991, - 1, 1), (9007199254740992, - 1, 1),
      (9007199254740992, 1, 1), (9007199254740991, 1, 1)]
   \<and> cube_vertices_3d (init_WireframeCube_f64 (9007199254740992, 0, 0) 2) \<noteq>
       map (\<lambda>(vx, vy, vz).
              (9007199254740992 + of_int vx * (2 / 2), 0 + of_int vy * (2 / 2),
               0 + of_int vz * (2 / 2)))
         UNIT_CUBE_VERTICES
   \<and> cube_vertices_3d
        (cube_update_position_f64 (init_WireframeCube_f64 (9007199254740992, 0, 0) 2) (0, 0, 0)) =
     [(- 1, - 1, - 1), (1, - 1, - 1), (1, 1, - 1), (- 1, 1, - 1),
      (- 1, - 1, 1), (1, - 1, 1), (1, 1, 1), (- 1, 1, 1)]
   \<and> cube_vertices_3d
        (cube_update_position_f64 (init_WireframeCube_f64 (9007199254740992, 0, 0) 2) (0, 0, 0)) \<noteq>
       map (translate_by_delta (9007199254740992, 0, 0) (0, 0, 0))
         (cube_vertices_3d (init_WireframeCube_f64 (9007199254740992, 0, 0) 2))"
  unfolding f64_cube_far
  by (simp add: UNIT_CUBE_VERTICES_def translate_by_delta_def)


section \<open>Properties of the sphere\<close>

lemma generate_edges_degrees:
  "map (degree generate_edges) [0, 1, 2, 3, 4, 5, 6, 7, 8, 9, 10, 11] =
     [5, 4, 5, 5, 5, 6, 5, 5, 4, 6, 5, 5]"
  by (simp add: degree_def generate_edges_def)

lemma generate_edges_distinct:
  "length (remdups (map undirected generate_edges)) = 29"
  by (simp add: undirected_def generate_edges_def)

lemma generate_edges_members:
  "(5, 9) \<in> set generate_edges" "(9, 5) \<in> set generate_edges"
  "(1, 8) \<notin> set generate_edges" "(8, 1) \<notin> set generate_edges"
  by (simp_all add: generate_edges_def)

subsection \<open>The base vertices\<close>

lemma normalize_loop_ok:
  "(\<forall>v \<in> set vs. norm3 v \<noteq> 0) \<Longrightarrow>
   normalize_loop vs acc = Inr (acc @ map unit_vector vs)"
proof (induction vs arbitrary: acc)
  case Nil
  show ?case by simp
next
  case (Cons v vs)
  obtain x y z where v: "v = (x, y, z)" by (cases v) auto
  from Cons.prems have "sqrt (x\<^sup>2 + y\<^sup>2 + z\<^sup>2) \<noteq> 0"
    by (simp add: v norm3_def dist3_def)
  then have nz: "sqrt (x * x + y * y + z * z) \<noteq> 0"
    by (simp add: power2_eq_square)
  from Cons.prems have "\<forall>v \<in> set vs. norm3 v \<noteq> 0" by simp
  from Cons.IH [OF this] nz show ?case
    by (simp add: v unit_vector_def Let_def)
qed

lemma norm3_unit_vector:
  assumes "norm3 v \<noteq> 0"
  shows "norm3 (unit_vector v) = 1"
proof -
  obtain x y z where v: "v = (x, y, z)" by (cases v) auto
  define n where "n = x\<^sup>2 + y\<^sup>2 + z\<^sup>2"
  have n0: "0 \<le> n" by (simp add: n_def)
  from assms have "sqrt n \<noteq> 0" by (simp add: v norm3_def dist3_def n_def)
  with n0 have npos: "0 < n" by (cases "n = 0") auto
  have sq: "(sqrt n)\<^sup>2 = n" using n0 by simp
  have "(x / sqrt n)\<^sup>2 + (y / sqrt n)\<^sup>2 + (z / sqrt n)\<^sup>2 = (x\<^sup>2 + y\<^sup>2 + z\<^sup>2) / n"
    by (simp add: power_divide sq add_divide_distrib)
  also have "\<dots> = 1" using npos by (simp add: n_def)
  finally have "sqrt ((x / sqrt n)\<^sup>2 + (y / sqrt n)\<^sup>2 + (z / sqrt n)\<^sup>2) = 1" by simp
  then show ?thesis
    by (simp add: v unit_vector_def norm3_def dist3_def n_def power2_eq_square)
qed

lemma icosahedron_vertices_nonzero:
  "\<forall>v \<in> set (icosahedron_vertices phi). norm3 v \<noteq> 0"
proof -
  have "0 < 1 + phi\<^sup>2" by (simp add: add_pos_nonneg)
  then have "sqrt (1 + phi\<^sup>2) \<noteq> 0" "sqrt (phi\<^sup>2 + 1) \<noteq> 0"
    by (simp_all add: add.commute)
  then show ?thesis
    by (simp add: icosahedron_vertices_def norm3_def dist3_def)
qed

lemma generate_icosahedron_returns:
  "generate_icosahedron = Inr (map unit_vector (icosahedron_vertices ((1 + sqrt 5) / 2)))"
  by (simp add: generate_icosahedron_def normalize_loop_ok icosahedron_vertices_nonzero)

lemma base_vertices_unit:
  "v \<in> set (map unit_vector (icosahedron_vertices phi)) \<Longrightarrow> norm3 v = 1"
  using icosahedron_vertices_nonzero [of phi] by (auto simp add: norm3_unit_vector)

subsection \<open>Rotation, scaling and translation\<close>

lemma norm3_rotate_y: "norm3 (rotate_y v a) = norm3 v"
proof -
  obtain x y z where v: "v = (x, y, z)" by (cases v) auto
  define c where "c = cos (radians a)"
  define s where "s = sin (radians a)"
  have cs: "s\<^sup>2 + c\<^sup>2 = 1" by (simp add: c_def s_def)
  have "(x * c + z * s)\<^sup>2 + (- x * s + z * c)\<^sup>2 = (x\<^sup>2 + z\<^sup>2) * (s\<^sup>2 + c\<^sup>2)"
    by (simp add: power2_eq_square algebra_simps)
  then have "(x * c + z * s)\<^sup>2 + y\<^sup>2 + (- x * s + z * c)\<^sup>2 = x\<^sup>2 + y\<^sup>2 + z\<^sup>2"
    by (simp add: cs)
  then show ?thesis
    by (simp add: v rotate_y_def norm3_def dist3_def Let_def c_def s_def)
qed

lemma dist3_scaled:
  "dist3 (px + rx * k, py + ry * k, pz + rz * k) (px, py, pz) = \<bar>k\<bar> * norm3 (rx, ry, rz)"
proof -
  have "(rx * k)\<^sup>2 + (ry * k)\<^sup>2 + (rz * k)\<^sup>2 = k\<^sup>2 * (rx\<^sup>2 + ry\<^sup>2 + rz\<^sup>2)"
    by (simp add: power_mult_distrib algebra_simps)
  then show ?thesis
    by (simp add: dist3_def norm3_def real_sqrt_mult)
qed

lemma world_vertices_distance:
  assumes "\<forall>b \<in> set (base_vertices s). norm3 b = 1"
    and "v \<in> set (sphere_calculate_world_vertices s)"
  shows "dist3 v (sphere_position s) = \<bar>sphere_size s\<bar>"
proof -
  obtain px py pz where p: "sphere_position s = (px, py, pz)"
    by (cases "sphere_position s") auto
  from assms(2) obtain b where b: "b \<in> set (base_vertices s)"
    and v: "v = (case b of (vx, vy, vz) \<Rightarrow>
               case rotate_y (vx, vy, vz) (rotation_angle s) of (rx, ry, rz) \<Rightarrow>
                 (px + rx * sphere_size s, py + ry * sphere_size s, pz + rz * sphere_size s))"
    by (auto simp add: sphere_calculate_world_vertices_def p)
  obtain rx ry rz where r: "rotate_y b (rotation_angle s) = (rx, ry, rz)"
    by (cases "rotate_y b (rotation_angle s)") auto
  have "norm3 (rx, ry, rz) = norm3 b"
    using norm3_rotate_y [of b "rotation_angle s"] by (simp add: r)
  with assms(1) b have one: "norm3 (rx, ry, rz) = 1" by simp
  from v r have "v = (px + rx * sphere_size s, py + ry * sphere_size s, pz + rz * sphere_size s)"
    by (cases b) simp
  then show ?thesis by (simp add: p dist3_scaled one)
qed

subsection \<open>The solid under its mutators\<close>

lemma init_LowPolySphere_returns:
  "init_LowPolySphere p r =
     Inr \<lparr> sphere_position = p, sphere_size = r, rotation_angle = 0, rotation_speed = 10,
           base_vertices = map unit_vector (icosahedron_vertices ((1 + sqrt 5) / 2)),
           sphere_vertices_3d = sphere_calculate_world_vertices
             \<lparr> sphere_position = p, sphere_size = r, rotation_angle = 0, rotation_speed = 10,
               base_vertices = map unit_vector (icosahedron_vertices ((1 + sqrt 5) / 2)),
               sphere_vertices_3d = [], edges = [] \<rparr>,
           edges = generate_edges \<rparr>"
  by (simp add: init_LowPolySphere_def generate_icosahedron_returns Let_def)

lemma sphere_calculate_world_vertices_cong:
  "sphere_position s = sphere_position t \<Longrightarrow> sphere_size s = sphere_size t \<Longrightarrow>
   rotation_angle s = rotation_angle t \<Longrightarrow> base_vertices s = base_vertices t \<Longrightarrow>
   sphere_calculate_world_vertices s = sphere_calculate_world_vertices t"
  by (simp add: sphere_calculate_world_vertices_def)

lemma sphere_consistent_init:
  "init_LowPolySphere p r = Inr s0 \<Longrightarrow> sphere_consistent r s0"
  unfolding init_LowPolySphere_returns sphere_consistent_def
  by (auto simp add: sphere_calculate_world_vertices_def)

lemma sphere_consistent_apply:
  "sphere_consistent r s \<Longrightarrow> sphere_consistent r (sphere_apply s c)"
  by (cases c)
    (auto simp add: sphere_consistent_def update_def sphere_update_position_def Let_def
      intro: sphere_calculate_world_vertices_cong)

lemma sphere_consistent_foldl:
  "sphere_consistent r s \<Longrightarrow> sphere_consistent r (foldl sphere_apply s calls)"
  by (induction calls arbitrary: s) (simp_all add: sphere_consistent_apply)

lemma sphere_consistent_distance:
  assumes "sphere_consistent r s" and "v \<in> set (sphere_vertices_3d s)"
  shows "dist3 v (sphere_position s) = \<bar>r\<bar>"
proof -
  from assms(1) have base: "\<forall>b \<in> set (base_vertices s). norm3 b = 1"
    using base_vertices_unit by (simp add: sphere_consistent_def)
  from assms have "v \<in> set (sphere_calculate_world_vertices s)"
    by (simp add: sphere_consistent_def)
  from world_vertices_distance [OF base this] assms(1) show ?thesis
    by (simp add: sphere_consistent_def)
qed

lemma sphere_consistent_length:
  "sphere_consistent r s \<Longrightarrow> length (sphere_vertices_3d s) = 12"
  by (cases "sphere_position s")
    (simp add: sphere_consistent_def sphere_calculate_world_vertices_def
      icosahedron_vertices_def)

text \<open>
  Claim C10.  A \<open>LowPolySphere\<close> is constructed without failure, and after construction and
  after any sequence of \<open>update\<close> and \<open>update_position\<close> calls it has 12 world vertices,
  every one of them at Euclidean distance \<open>\<bar>size\<bar>\<close> from the current centre position, which
  for a radius \<open>size \<ge> 0\<close> is exactly \<open>size\<close>: the base vertices have length 1, the rotation
  about the vertical axis keeps their length, and the scaling by \<open>size\<close> and the
  translation to the centre follow.
\<close>

theorem sphere_vertices_at_radius:
  "\<exists>s0. init_LowPolySphere p r = Inr s0 \<and>
     length (sphere_vertices_3d (foldl sphere_apply s0 calls)) = 12 \<and>
     (\<forall>v \<in> set (sphere_vertices_3d (foldl sphere_apply s0 calls)).
        dist3 v (sphere_position (foldl sphere_apply s0 calls)) = \<bar>r\<bar>
        \<and> (0 \<le> r \<longrightarrow> dist3 v (sphere_position (foldl sphere_apply s0 calls)) = r))"
proof -
  obtain s0 where s0: "init_LowPolySphere p r = Inr s0"
    using init_LowPolySphere_returns by blast
  then have "sphere_consistent r s0" by (rule sphere_consistent_init)
  then have inv: "sphere_consistent r (foldl sphere_apply s0 calls)"
    by (rule sphere_consistent_foldl)
  have "length (sphere_vertices_3d (foldl sphere_apply s0 calls)) = 12"
    using inv by (rule sphere_consistent_length)
  moreover have "\<forall>v \<in> set (sphere_vertices_3d (foldl sphere_apply s0 calls)).
        dist3 v (sphere_position (foldl sphere_apply s0 calls)) = \<bar>r\<bar>
        \<and> (0 \<le> r \<longrightarrow> dist3 v (sphere_position (foldl sphere_apply s0 calls)) = r)"
    using sphere_consistent_distance [OF inv] by auto
  ultimately show ?thesis using s0 by blast
qed

theorem sphere_vertices_at_radius_witness:
  "(0::real) \<le> 18 \<and>
   (\<exists>s0. init_LowPolySphere (600, 200, 0) 18 = Inr s0 \<and>
      sphere_position (foldl sphere_apply s0 [Update 1, UpdatePosition (1, 2, 3), Update 0.5])
        = (1, 2, 3) \<and>
      set (map (\<lambda>v. dist3 v (1, 2, 3))
             (sphere_vertices_3d
                (foldl sphere_apply s0 [Update 1, UpdatePosition (1, 2, 3), Update 0.5])))
        \<subseteq> {18})"
proof -
  from sphere_vertices_at_radius [of "(600, 200, 0)" 18
      "[Update 1, UpdatePosition (1, 2, 3), Update 0.5]"]
  obtain s0 where s0: "init_LowPolySphere (600, 200, 0) 18 = Inr s0"
    and d: "\<forall>v \<in> set (sphere_vertices_3d
                (foldl sphere_apply s0 [Update 1, UpdatePosition (1, 2, 3), Update 0.5])).
        dist3 v (sphere_position
                (foldl sphere_apply s0 [Update 1, UpdatePosition (1, 2, 3), Update 0.5])) = 18"
    by auto
  have pos: "sphere_position (foldl sphere_apply s0 [Update 1, UpdatePosition (1, 2, 3), Update 0.5])
        = (1, 2, 3)"
    by (simp add: update_def sphere_update_position_def Let_def)
  from d have "set (map (\<lambda>v. dist3 v (1, 2, 3))
             (sphere_vertices_3d
                (foldl sphere_apply s0 [Update 1, UpdatePosition (1, 2, 3), Update 0.5])))
        \<subseteq> {18}"
    unfolding pos by auto
  with s0 pos show ?thesis by auto
qed

subsection \<open>The rotation step\<close>

lemma py_fmod_range:
  assumes "0 < m"
  shows "0 \<le> py_fmod a m" and "py_fmod a m < m"
proof -
  have "m * of_int \<lfloor>a / m\<rfloor> \<le> m * (a / m)"
    using assms by (intro mult_left_mono) simp_all
  also have "m * (a / m) = a" using assms by simp
  finally have "m * of_int \<lfloor>a / m\<rfloor> \<le> a" .
  then show "0 \<le> py_fmod a m" by (simp add: py_fmod_def)
  have lt: "a / m < of_int \<lfloor>a / m\<rfloor> + 1" by linarith
  have "m * (a / m) < m * (of_int \<lfloor>a / m\<rfloor> + 1)"
    by (rule mult_strict_left_mono [OF lt assms])
  moreover have "m * (a / m) = a" using assms by simp
  ultimately have "a < m * (of_int \<lfloor>a / m\<rfloor> + 1)" by simp
  then show "py_fmod a m < m" by (simp add: py_fmod_def algebra_simps)
qed

lemma py_fmod_small: "0 \<le> a \<Longrightarrow> a < m \<Longrightarrow> py_fmod a m = a"
proof -
  assume a: "0 \<le> a" "a < m"
  then have "0 \<le> a / m" "a / m < 1" by simp_all
  then have "\<lfloor>a / m\<rfloor> = 0" by linarith
  then show ?thesis by (simp add: py_fmod_def)
qed



subsection \<open>The edge table\<close>

lemma golden_ratio_square:
  "((1 + sqrt 5) / 2)\<^sup>2 = (1 + sqrt 5) / 2 + 1"
  by (simp add: power2_eq_square field_simps)

lemma icosahedron_vertices_permutations:
  "set (icosahedron_vertices phi) =
     (\<lambda>(a, b). (0, a, b * phi)) ` ({-1, 1} \<times> {-1, 1})
     \<union> (\<lambda>(a, b). (a, b * phi, 0)) ` ({-1, 1} \<times> {-1, 1})
     \<union> (\<lambda>(a, b). (b * phi, 0, a)) ` ({-1, 1} \<times> {-1, 1})"
  by (auto simp add: icosahedron_vertices_def)

lemma missing_edge_length:
  "dist3 (icosahedron_vertices ((1 + sqrt 5) / 2) ! 1) (icosahedron_vertices ((1 + sqrt 5) / 2) ! 8) = 2"
  "dist3 (icosahedron_vertices ((1 + sqrt 5) / 2) ! 0) (icosahedron_vertices ((1 + sqrt 5) / 2) ! 1) = 2"
proof -
  define phi :: real where "phi = (1 + sqrt 5) / 2"
  have sq: "phi\<^sup>2 = phi + 1" unfolding phi_def by (rule golden_ratio_square)
  have "(1 - phi)\<^sup>2 + (phi - 0)\<^sup>2 + (0 - (- 1))\<^sup>2 = 2 * phi\<^sup>2 - 2 * phi + 2"
    by (simp add: power2_eq_square algebra_simps)
  also have "\<dots> = 2\<^sup>2" by (simp add: sq)
  finally have "sqrt ((1 - phi)\<^sup>2 + (phi - 0)\<^sup>2 + (0 - (- 1))\<^sup>2) = 2"
    by simp
  then show "dist3 (icosahedron_vertices ((1 + sqrt 5) / 2) ! 1)
      (icosahedron_vertices ((1 + sqrt 5) / 2) ! 8) = 2"
    by (simp add: icosahedron_vertices_def dist3_def phi_def)
  have "sqrt ((2::real)\<^sup>2) = 2" by simp
  then show "dist3 (icosahedron_vertices ((1 + sqrt 5) / 2) ! 0)
      (icosahedron_vertices ((1 + sqrt 5) / 2) ! 1) = 2"
    by (simp add: icosahedron_vertices_def dist3_def)
qed

text \<open>
  Claim C2.  The solid has 12 local vertices, the cyclic permutations of \<open>(0, \<plusminus>1, \<plusminus>phi)\<close>
  with \<open>phi = (1 + sqrt 5) / 2\<close>, each divided by its length.  Its edge table has 30 entries,
  but they are not the 30 edges of the icosahedron: the edge between the vertices 5 and 9
  is listed twice, as \<open>(5, 9)\<close> and as \<open>(9, 5)\<close>, and the edge between the vertices 1 and 8,
  which lie at the solid's edge length from each other, is not listed.  So the table has
  29 distinct edges, and the vertices 1 and 8 have 4 edge ends and the vertices 5 and 9
  have 6, where every vertex of an icosahedron has degree 5.
\<close>

theorem generate_edges_not_icosahedral:
  "generate_icosahedron = Inr (map unit_vector (icosahedron_vertices ((1 + sqrt 5) / 2)))
   \<and> length (icosahedron_vertices ((1 + sqrt 5) / 2)) = 12
   \<and> set (icosahedron_vertices ((1 + sqrt 5) / 2)) =
       (\<lambda>(a, b). (0, a, b * ((1 + sqrt 5) / 2))) ` ({-1, 1} \<times> {-1, 1})
       \<union> (\<lambda>(a, b). (a, b * ((1 + sqrt 5) / 2), 0)) ` ({-1, 1} \<times> {-1, 1})
       \<union> (\<lambda>(a, b). (b * ((1 + sqrt 5) / 2), 0, a)) ` ({-1, 1} \<times> {-1, 1})
   \<and> length generate_edges = 30
   \<and> length (remdups (map undirected generate_edges)) = 29
   \<and> (5, 9) \<in> set generate_edges \<and> (9, 5) \<in> set generate_edges
   \<and> (1, 8) \<notin> set generate_edges \<and> (8, 1) \<notin> set generate_edges
   \<and> dist3 (icosahedron_vertices ((1 + sqrt 5) / 2) ! 1)
        (icosahedron_vertices ((1 + sqrt 5) / 2) ! 8)
      = dist3 (icosahedron_vertices ((1 + sqrt 5) / 2) ! 0)
        (icosahedron_vertices ((1 + sqrt 5) / 2) ! 1)
   \<and> map (degree generate_edges) [0, 1, 2, 3, 4, 5, 6, 7, 8, 9, 10, 11] =
       [5, 4, 5, 5, 5, 6, 5, 5, 4, 6, 5, 5]"
proof -
  have "length (icosahedron_vertices ((1 + sqrt 5) / 2)) = 12"
    by (simp add: icosahedron_vertices_def)
  moreover have "length generate_edges = 30"
    by (simp add: generate_edges_def)
  ultimately show ?thesis
    using generate_icosahedron_returns generate_edges_distinct generate_edges_members
      generate_edges_degrees missing_edge_length
      icosahedron_vertices_permutations [of "(1 + sqrt 5) / 2"]
    by simp
qed


section \<open>Properties of the colours\<close>

lemma get_master_hue_returns:
  "cycle_duration cs \<noteq> 0 \<Longrightarrow>
   get_master_hue cs now = Inr (py_fmod ((now - start_time cs) / cycle_duration cs) 1)"
  by (simp add: get_master_hue_def py_truediv_def)

text \<open>
  Claim C8.  At any simultaneous sample, that is with both colours evaluated at the same
  time \<open>now\<close>, the hue from which the apple colour is derived is
  \<open>(hue of the snake colour + 0.333) mod 1.0\<close>: the number in \<open>[0, 1)\<close> that differs from
  \<open>snake hue + 0.333\<close> by a whole number.  The hues exist whenever \<open>cycle_duration\<close> is not
  zero, and they are the first arguments of the two conversions to RGB.
\<close>

theorem apple_hue_offset:
  "(cycle_duration cs \<noteq> 0 \<longrightarrow> (\<exists>h. snake_hue cs now = Inr h \<and> 0 \<le> h \<and> h < 1))
   \<and> (\<forall>h. snake_hue cs now = Inr h \<longrightarrow>
          apple_hue cs now = Inr (py_fmod (h + 0.333) 1.0)
          \<and> 0 \<le> py_fmod (h + 0.333) 1.0 \<and> py_fmod (h + 0.333) 1.0 < 1
          \<and> (\<exists>k::int. h + 0.333 = py_fmod (h + 0.333) 1.0 + of_int k)
          \<and> get_snake_color hsv cs now = Inr (rgb_255 (hsv h 0.8 0.9))
          \<and> get_apple_color hsv cs now = Inr (rgb_255 (hsv (py_fmod (h + 0.333) 1.0) 0.9 0.95)))"
proof -
  have returns: "cycle_duration cs \<noteq> 0 \<longrightarrow> (\<exists>h. snake_hue cs now = Inr h \<and> 0 \<le> h \<and> h < 1)"
    by (simp add: snake_hue_def get_master_hue_returns py_fmod_range)
  have offset: "apple_hue cs now = Inr (py_fmod (h + 0.333) 1.0)
          \<and> 0 \<le> py_fmod (h + 0.333) 1.0 \<and> py_fmod (h + 0.333) 1.0 < 1
          \<and> (\<exists>k::int. h + 0.333 = py_fmod (h + 0.333) 1.0 + of_int k)
          \<and> get_snake_color hsv cs now = Inr (rgb_255 (hsv h 0.8 0.9))
          \<and> get_apple_color hsv cs now = Inr (rgb_255 (hsv (py_fmod (h + 0.333) 1.0) 0.9 0.95))"
    if h: "snake_hue cs now = Inr h" for h
  proof -
    from h have m: "get_master_hue cs now = Inr h" by (simp add: snake_hue_def)
    then have a: "apple_hue cs now = Inr (py_fmod (h + 0.333) 1.0)"
      by (simp add: apple_hue_def)
    have "h + 0.333 = py_fmod (h + 0.333) 1.0 + of_int \<lfloor>h + 0.333\<rfloor>"
      by (simp add: py_fmod_def)
    then have k: "\<exists>k::int. h + 0.333 = py_fmod (h + 0.333) 1.0 + of_int k" ..
    have s: "get_snake_color hsv cs now = Inr (rgb_255 (hsv h 0.8 0.9))"
      by (simp add: get_snake_color_def h)
    have c: "get_apple_color hsv cs now = Inr (rgb_255 (hsv (py_fmod (h + 0.333) 1.0) 0.9 0.95))"
      by (simp add: get_apple_color_def a)
    from a k s c py_fmod_range [of 1 "h + 0.333"] show ?thesis by simp
  qed
  from returns offset show ?thesis by blast
qed

theorem apple_hue_offset_witness:
  "cycle_duration (init_ColorEvolution 60 100) \<noteq> 0
   \<and> snake_hue (init_ColorEvolution 60 100) 130 = Inr 0.5
   \<and> apple_hue (init_ColorEvolution 60 100) 130 = Inr 0.833
   \<and> get_snake_color (\<lambda>h s v. (h, s, v)) (init_ColorEvolution 60 100) 130 = Inr (127, 204, 229)
   \<and> get_apple_color (\<lambda>h s v. (h, s, v)) (init_ColorEvolution 60 100) 130 = Inr (212, 229, 242)"
proof -
  have h: "snake_hue (init_ColorEvolution 60 100) 130 = Inr 0.5"
    by (simp add: snake_hue_def get_master_hue_def py_truediv_def init_ColorEvolution_def
        py_fmod_small)
  have f: "py_fmod (0.5 + 0.333) 1.0 = 0.833"
    by (simp add: py_fmod_small)
  note t = apple_hue_offset [of "init_ColorEvolution 60 100" 130 "\<lambda>h s v. (h, s, v)",
      THEN conjunct2, rule_format, OF h, unfolded f]
  have nz: "cycle_duration (init_ColorEvolution 60 100) \<noteq> 0"
    by (simp add: init_ColorEvolution_def)
  have a: "apple_hue (init_ColorEvolution 60 100) 130 = Inr 0.833"
    using t by simp
  have "rgb_255 (0.5, 0.8, 0.9) = (127, 204, 229)"
    by (simp add: rgb_255_def py_int_def)
  with t have s: "get_snake_color (\<lambda>h s v. (h, s, v)) (init_ColorEvolution 60 100) 130
      = Inr (127, 204, 229)"
    by simp
  have "rgb_255 (0.833, 0.9, 0.95) = (212, 229, 242)"
    by (simp add: rgb_255_def py_int_def)
  with t have c: "get_apple_color (\<lambda>h s v. (h, s, v)) (init_ColorEvolution 60 100) 130
      = Inr (212, 229, 242)"
    by simp
  from nz h a s c show ?thesis by simp
qed

end
